theory Spec2Isabelle
  imports Main
begin

section \<open>The HTTP/2 client connection of th2c (src/th2c/connection.py)\<close>

text \<open>
  The class \<^verbatim>\<open>HTTP2ClientConnection\<close> is embedded as a record of its attributes
  together with two chronological traces: the calls it makes on its external collaborators
  (the IOLoop, the TCP client, the IOStream, the protocol engine's commands, the stream
  handlers and the two user callbacks) and the messages it logs.  Every method is a function
  from the state before the call to the state after it.  A method that can raise returns an
  \<open>outcome\<close>, which keeps the state reached when the exception left the method.

  Outside the source file, and therefore parameters of the model:
  \<^item> the protocol engine (the h2 library): an abstract state \<open>'e\<close> and a record of its
    operations, each returning what the call returns or raises;
  \<^item> the IOStream handed to \<open>on_connect\<close>: a value with its identity, the value of its
    \<^verbatim>\<open>error\<close> attribute when it is handed over, and whether its \<^verbatim>\<open>close()\<close> raises
    (\<open>CloseFailed\<close> stands for what it raises);
  \<^item> the stream handlers and the observers: calling one is recorded in the trace, and a
    record of functions says how the call ends (it returns, or it raises and the exception is
    handled or leaves the connection's method); the callee does not call back into the
    connection;
  \<^item> the two user callbacks: calling one is recorded in the trace; the callee returns, and
    does not call back into the connection;
  \<^item> the clock: \<open>connect\<close> takes the value of \<^verbatim>\<open>IOLoop.current().time()\<close>.
  The connection is constructed with both callbacks and a numeric connect timeout.
  \<^verbatim>\<open>recv_streams.iteritems()\<close> runs in the order of first insertion here; Python fixes no order,
  and no statement below depends on it but through the order of the per-stream increments.
\<close>

subsection \<open>Values\<close>

type_synonym bytes = "nat list"

datatype exn =
    HTTPError nat
  | KeyError
  | AttributeError
  | StreamClosedError
  | CloseFailed
  | OtherException nat

text \<open>The argument of \<^verbatim>\<open>on_close\<close>: Python's \<^verbatim>\<open>None\<close> or an exception value.\<close>

type_synonym reason = "exn option"

text \<open>
  \<^verbatim>\<open>_connect_timeout_t\<close> is \<^verbatim>\<open>None\<close> after construction and after a successful connect,
  the IOLoop's timeout object while a connect is pending, and \<^verbatim>\<open>False\<close> after a timeout.
  Only the timeout object is truthy.
\<close>

datatype timeout_handle = TNone | TFalse | THandle nat

fun timeout_truthy :: "timeout_handle \<Rightarrow> bool" where
  "timeout_truthy (THandle d) = True"
| "timeout_truthy TNone = False"
| "timeout_truthy TFalse = False"

datatype ssl_context_t = SSLContext (ctx_options: "string list") (ctx_ciphers: string) (ctx_alpn: "string list")

record iostream =
  ios_id :: nat
  ios_error :: reason
  ios_close_raises :: bool
  ios_nodelay :: bool
  ios_close_callback :: "reason option"

text \<open>
  \<open>ios_close_callback\<close> is the close callback registered on the IOStream:
  \<open>None\<close> when there is none, \<open>Some r\<close> for \<^verbatim>\<open>functools.partial(self.on_close, r)\<close>.
\<close>

datatype event_kind = RemoteSettingsChanged | ConnectionTerminated | DataReceived | OtherEvent

text \<open>
  An event of the engine: the identity of the object (what a dictionary keyed by events
  compares, as the events define no equality), its class (what \<^verbatim>\<open>isinstance\<close> tests), the value of
  \<^verbatim>\<open>getattr(event, 'stream_id', None)\<close>, and \<^verbatim>\<open>flow_controlled_length\<close> (read for a
  \<^verbatim>\<open>DataReceived\<close> only).
\<close>

record event =
  ev_id :: nat
  kind :: event_kind
  stream_id :: "nat option"
  flow_controlled_length :: nat

text \<open>Python's truth value of a stream id: \<^verbatim>\<open>None\<close> and \<^verbatim>\<open>0\<close> are false.\<close>

fun id_truthy :: "nat option \<Rightarrow> bool" where
  "id_truthy None = False"
| "id_truthy (Some n) = (n \<noteq> 0)"

datatype effect =
    AddTimeout nat
  | RemoveTimeout timeout_handle
  | TcpConnect string nat "ssl_context_t option"
  | StreamClose nat
  | SetNodelay nat
  | SetCloseCallback nat reason
  | ReadBytes nat nat
  | StreamWrite nat bytes
  | InitiateConnection
  | UpdateSettings
  | ReceiveData bytes
  | IncrementStream nat "nat option"
  | IncrementConnection nat
  | DataToSend
  | HandleEvent nat event
  | HandleException nat exn
  | ObserverCall nat event
  | AddCallbackReady
  | ConnectionClosed reason

datatype log_entry =
    WarnConnectWhileWaiting
  | InfoStreamOpened nat
  | InfoShouldCloseTimedOut
  | InfoClosedWithReason reason
  | ErrorClosingStream
  | InfoTimedOut nat
  | ErrorConnection string exn
  | InfoReceivedData nat
  | InfoEventsToProcess "event list"
  | InfoCouldNotProcess
  | InfoProcessingEvent event
  | WarnEventForConnection event
  | WarnEventForUnregisteredStream event
  | InfoTryingIncrement "nat option" nat
  | WarnIncrementClosedStream
  | InfoIncrementingWindow
  | InfoFlushing nat

datatype ('a, 's) outcome = Returned 'a | Raised exn 's

subsection \<open>The protocol engine, as the connection uses it\<close>

record 'e h2_engine =
  new_connection :: 'e
  initiate_connection :: "'e \<Rightarrow> 'e"
  update_settings :: "'e \<Rightarrow> 'e"
  receive_data :: "'e \<Rightarrow> bytes \<Rightarrow> (exn + event list) \<times> 'e"
  increment_flow_control_window :: "'e \<Rightarrow> nat \<Rightarrow> nat option \<Rightarrow> exn option \<times> 'e"
  data_to_send :: "'e \<Rightarrow> bytes \<times> 'e"
  get_next_available_stream_id :: "'e \<Rightarrow> nat"

subsection \<open>The stream handlers and the observers, as the connection uses them\<close>

text \<open>
  How \<^verbatim>\<open>stream.handle_event(event)\<close> under \<^verbatim>\<open>ExceptionStackContext(stream.handle_exception)\<close>
  ends: the handler returns; or it raises and \<^verbatim>\<open>handle_exception\<close> returns a true value, which
  ends the exception there; or it raises and \<^verbatim>\<open>handle_exception\<close> returns a false value, and
  the exception goes on.
\<close>

datatype handled = Handled | Caught exn | Escaped exn

text \<open>
  The outcome of a call may depend on everything the connection has done so far (the trace),
  on the callee and on the event.  An observer returns or raises.
\<close>

record handlers =
  handle_event :: "effect list \<Rightarrow> nat \<Rightarrow> event \<Rightarrow> handled"
  observer_call :: "effect list \<Rightarrow> nat \<Rightarrow> event \<Rightarrow> exn option"

subsection \<open>The connection\<close>

record 'e connection =
  host :: string
  port :: nat
  connect_timeout :: nat
  is_connected :: bool
  timed_out :: bool
  stream :: "iostream option"
  connect_timeout_t :: timeout_handle
  h2conn :: "'e option"
  ongoing_streams :: "nat \<rightharpoonup> nat"
  event_handlers :: "nat \<rightharpoonup> nat list"
  ssl_context :: "ssl_context_t option"
  effects :: "effect list"
  logged :: "log_entry list"

definition emit :: "effect list \<Rightarrow> 'e connection \<Rightarrow> 'e connection" where
  "emit es s = s\<lparr>effects := effects s @ es\<rparr>"

definition logmsg :: "log_entry \<Rightarrow> 'e connection \<Rightarrow> 'e connection" where
  "logmsg m s = s\<lparr>logged := logged s @ [m]\<rparr>"

definition parse_ssl_opts :: "nat \<Rightarrow> ssl_context_t option" where
  "parse_ssl_opts p =
     (if p \<noteq> 443 then None
      else Some (SSLContext [''OP_NO_TLSv1'', ''OP_NO_TLSv1_1'', ''OP_NO_COMPRESSION'']
                            ''ECDHE+AESGCM'' [''h2'']))"

definition init :: "string \<Rightarrow> nat \<Rightarrow> nat \<Rightarrow> 'e connection" where
  "init h p t =
     \<lparr>host = h, port = p, connect_timeout = t, is_connected = False, timed_out = False,
      stream = None, connect_timeout_t = TNone, h2conn = None, ongoing_streams = Map.empty,
      event_handlers = Map.empty, ssl_context = parse_ssl_opts p, effects = [], logged = []\<rparr>"

definition connect :: "nat \<Rightarrow> 'e connection \<Rightarrow> 'e connection" where
  "connect start_time s =
     (if timeout_truthy (connect_timeout_t s) then logmsg WarnConnectWhileWaiting s
      else emit [AddTimeout (start_time + connect_timeout s),
                 TcpConnect (host s) (port s) (ssl_context s)]
             (s\<lparr>timed_out := False,
                connect_timeout_t := THandle (start_time + connect_timeout s)\<rparr>))"

definition flush :: "'e h2_engine \<Rightarrow> 'e connection \<Rightarrow> ('e connection, 'e connection) outcome" where
  "flush ops s =
     (case h2conn s of
        None \<Rightarrow> Raised AttributeError s
      | Some e \<Rightarrow>
          (let (d, e') = data_to_send ops e;
               s1 = emit [DataToSend] (s\<lparr>h2conn := Some e'\<rparr>)
           in if d \<noteq> [] then
                (case stream s1 of
                   None \<Rightarrow> Raised AttributeError (logmsg (InfoFlushing (length d)) s1)
                 | Some io \<Rightarrow>
                     Returned (emit [StreamWrite (ios_id io) d] (logmsg (InfoFlushing (length d)) s1)))
              else Returned s1))"

definition on_connect :: "'e h2_engine \<Rightarrow> iostream \<Rightarrow> 'e connection \<Rightarrow> ('e connection, 'e connection) outcome" where
  "on_connect ops io_stream s0 =
     (let s = logmsg (InfoStreamOpened (ios_id io_stream)) s0 in
      if timed_out s then
        (let s1 = emit [StreamClose (ios_id io_stream)] (logmsg InfoShouldCloseTimedOut s)
         in if ios_close_raises io_stream then Raised CloseFailed s1 else Returned s1)
      else
        (let io = io_stream\<lparr>ios_nodelay := True, ios_close_callback := Some (ios_error io_stream)\<rparr>;
             e = update_settings ops (initiate_connection ops (new_connection ops));
             s1 = emit [RemoveTimeout (connect_timeout_t s), SetNodelay (ios_id io_stream),
                        SetCloseCallback (ios_id io_stream) (ios_error io_stream),
                        InitiateConnection, UpdateSettings, ReadBytes (ios_id io_stream) 65535]
                    (s\<lparr>is_connected := True, connect_timeout_t := TNone,
                       stream := Some io, h2conn := Some e\<rparr>)
         in case flush ops s1 of
              Raised x s2 \<Rightarrow> Raised x s2
            | Returned s2 \<Rightarrow> Returned (emit [AddCallbackReady] s2)))"

definition on_close :: "reason \<Rightarrow> 'e connection \<Rightarrow> 'e connection" where
  "on_close r s0 =
     (let s = (logmsg (InfoClosedWithReason r) s0)\<lparr>is_connected := False, h2conn := None\<rparr>;
          s1 = (case stream s of
                  None \<Rightarrow> s
                | Some io \<Rightarrow>
                    (let s' = emit [StreamClose (ios_id io)] s;
                         s'' = (if ios_close_raises io then logmsg ErrorClosingStream s' else s')
                     in s''\<lparr>stream := None\<rparr>))
      in emit [ConnectionClosed r] s1)"


definition on_error :: "string \<Rightarrow> exn \<Rightarrow> 'e connection \<Rightarrow> 'e connection" where
  "on_error phase val s = on_close (Some val) (logmsg (ErrorConnection phase val) s)"

text \<open>
  The IOStream calls its close callback when it closes.  \<open>iostream_closed err\<close> is that
  moment for the IOStream held in \<^verbatim>\<open>self.stream\<close>: its \<^verbatim>\<open>error\<close> attribute is \<open>err\<close> by
  then, and the callback registered by \<open>on_connect\<close> runs.
\<close>

definition iostream_closed :: "reason \<Rightarrow> 'e connection \<Rightarrow> 'e connection" where
  "iostream_closed err s =
     (case stream s of
        None \<Rightarrow> s
      | Some io \<Rightarrow>
          (let s1 = s\<lparr>stream := Some (io\<lparr>ios_error := err\<rparr>)\<rparr>
           in case ios_close_callback io of
                None \<Rightarrow> s1
              | Some r \<Rightarrow> on_close r s1))"

subsection \<open>Dispatching a batch of events\<close>

text \<open>The local variables of \<^verbatim>\<open>process_events\<close>; \<^verbatim>\<open>recv_streams\<close> in first-insertion order.\<close>

record locals =
  recv_streams :: "(nat option \<times> nat) list"
  settings_updated :: bool
  connection_terminated :: bool

text \<open>\<^verbatim>\<open>recv_streams.get(k, 0)\<close> and \<^verbatim>\<open>recv_streams[k] = v\<close>.\<close>

definition recv_get :: "(nat option \<times> nat) list \<Rightarrow> nat option \<Rightarrow> nat" where
  "recv_get rs k = (case map_of rs k of None \<Rightarrow> 0 | Some n \<Rightarrow> n)"

fun recv_set :: "(nat option \<times> nat) list \<Rightarrow> nat option \<Rightarrow> nat \<Rightarrow> (nat option \<times> nat) list" where
  "recv_set [] k v = [(k, v)]"
| "recv_set ((k', v') # rs) k v = (if k' = k then (k, v) # rs else (k', v') # recv_set rs k v)"

definition classify :: "event \<Rightarrow> locals \<Rightarrow> locals" where
  "classify ev l =
     (if kind ev = RemoteSettingsChanged then l\<lparr>settings_updated := True\<rparr>
      else if kind ev = ConnectionTerminated then l\<lparr>connection_terminated := True\<rparr>
      else if kind ev = DataReceived then
        l\<lparr>recv_streams :=
            recv_set (recv_streams l) (stream_id ev)
              (recv_get (recv_streams l) (stream_id ev) + flow_controlled_length ev)\<rparr>
      else l)"

definition route ::
  "handlers \<Rightarrow> event \<Rightarrow> 'e connection \<Rightarrow> ('e connection, 'e connection) outcome" where
  "route env ev s =
     (if id_truthy (stream_id ev) \<and> the (stream_id ev) \<in> dom (ongoing_streams s) then
        (let h = the (ongoing_streams s (the (stream_id ev)));
             s1 = emit [HandleEvent h ev] s
         in case handle_event env (effects s) h ev of
              Handled \<Rightarrow> Returned s1
            | Caught x \<Rightarrow> Returned (emit [HandleException h x] s1)
            | Escaped x \<Rightarrow> Raised x (emit [HandleException h x] s1))
      else if \<not> id_truthy (stream_id ev) then Returned (logmsg (WarnEventForConnection ev) s)
      else Returned (logmsg (WarnEventForUnregisteredStream ev) s))"

text \<open>\<^verbatim>\<open>for ev_handler in self.event_handlers[event]: ev_handler(event)\<close>.\<close>

fun call_observers ::
  "handlers \<Rightarrow> nat list \<Rightarrow> event \<Rightarrow> 'e connection \<Rightarrow> ('e connection, 'e connection) outcome" where
  "call_observers env [] ev s = Returned s"
| "call_observers env (h # hs) ev s =
     (case observer_call env (effects s) h ev of
        None \<Rightarrow> call_observers env hs ev (emit [ObserverCall h ev] s)
      | Some x \<Rightarrow> Raised x (emit [ObserverCall h ev] s))"

definition observe ::
  "handlers \<Rightarrow> event \<Rightarrow> 'e connection \<Rightarrow> ('e connection, 'e connection) outcome" where
  "observe env ev s =
     (case event_handlers s (ev_id ev) of
        None \<Rightarrow> Returned s
      | Some hs \<Rightarrow> call_observers env hs ev s)"

text \<open>The first loop of \<^verbatim>\<open>process_events\<close>; an exception ends it, and the locals are lost.\<close>

fun dispatch ::
  "handlers \<Rightarrow> event list \<Rightarrow> locals \<Rightarrow> 'e connection
     \<Rightarrow> (locals \<times> 'e connection, 'e connection) outcome" where
  "dispatch env [] l s = Returned (l, s)"
| "dispatch env (ev # evs) l s =
     (case route env ev (logmsg (InfoProcessingEvent ev) s) of
        Raised x s1 \<Rightarrow> Raised x s1
      | Returned s1 \<Rightarrow>
          (case observe env ev s1 of
             Raised x s2 \<Rightarrow> Raised x s2
           | Returned s2 \<Rightarrow> dispatch env evs (classify ev l) s2))"

fun credit_streams ::
  "'e h2_engine \<Rightarrow> (nat option \<times> nat) list \<Rightarrow> nat \<Rightarrow> 'e connection
     \<Rightarrow> (nat \<times> 'e connection, 'e connection) outcome" where
  "credit_streams ops [] recv_connection s = Returned (recv_connection, s)"
| "credit_streams ops ((sid, num_bytes) # rs) recv_connection s =
     (if num_bytes = 0 then credit_streams ops rs recv_connection s
      else
        (let s1 = logmsg (InfoTryingIncrement sid num_bytes) s in
         case h2conn s1 of
           None \<Rightarrow> Raised AttributeError s1
         | Some e \<Rightarrow>
             (let (r, e') = increment_flow_control_window ops e num_bytes sid;
                  s2 = emit [IncrementStream num_bytes sid] (s1\<lparr>h2conn := Some e'\<rparr>)
              in case r of
                   None \<Rightarrow> credit_streams ops rs (recv_connection + num_bytes) s2
                 | Some x \<Rightarrow>
                     if x = StreamClosedError then
                       credit_streams ops rs (recv_connection + num_bytes)
                         (logmsg WarnIncrementClosedStream s2)
                     else Raised x s2)))"

definition credit_connection ::
  "'e h2_engine \<Rightarrow> nat \<Rightarrow> 'e connection \<Rightarrow> ('e connection, 'e connection) outcome" where
  "credit_connection ops recv_connection s =
     (let s1 = logmsg InfoIncrementingWindow s in
      case h2conn s1 of
        None \<Rightarrow> Raised AttributeError s1
      | Some e \<Rightarrow>
          (let (r, e') = increment_flow_control_window ops e recv_connection None;
               s2 = emit [IncrementConnection recv_connection] (s1\<lparr>h2conn := Some e'\<rparr>)
           in case r of None \<Rightarrow> Returned s2 | Some x \<Rightarrow> Raised x s2))"

definition process_events ::
  "'e h2_engine \<Rightarrow> handlers \<Rightarrow> event list \<Rightarrow> 'e connection
     \<Rightarrow> ('e connection, 'e connection) outcome" where
  "process_events ops env events s =
     (case dispatch env events \<lparr>recv_streams = [], settings_updated = False,
                                 connection_terminated = False\<rparr> s of
        Raised x s1 \<Rightarrow> Raised x s1
      | Returned (l, s1) \<Rightarrow>
          (case credit_streams ops (recv_streams l) 0 s1 of
             Raised x s2 \<Rightarrow> Raised x s2
           | Returned (recv_connection, s2) \<Rightarrow>
               (case (if recv_connection \<noteq> 0 then credit_connection ops recv_connection s2
                      else Returned s2) of
                  Raised x s3 \<Rightarrow> Raised x s3
                | Returned s3 \<Rightarrow>
                    if recv_connection \<noteq> 0 \<or> settings_updated l then flush ops s3
                    else Returned s3)))"

definition data_received ::
  "'e h2_engine \<Rightarrow> handlers \<Rightarrow> bytes \<Rightarrow> 'e connection \<Rightarrow> 'e connection" where
  "data_received ops env data s0 =
     (let s = logmsg (InfoReceivedData (length data)) s0 in
      case h2conn s of
        None \<Rightarrow> logmsg InfoCouldNotProcess s
      | Some e \<Rightarrow>
          (let (r, e') = receive_data ops e data;
               s1 = emit [ReceiveData data] (s\<lparr>h2conn := Some e'\<rparr>)
           in case r of
                Inl x \<Rightarrow> logmsg InfoCouldNotProcess s1
              | Inr events \<Rightarrow>
                  (let s2 = logmsg (InfoEventsToProcess events) s1 in
                   if events \<noteq> [] then
                     (case process_events ops env events s2 of
                        Returned s3 \<Rightarrow> s3
                      | Raised x s3 \<Rightarrow> logmsg InfoCouldNotProcess s3)
                   else s2)))"

subsection \<open>The stream registry and the observers\<close>

text \<open>A stream handler object: its identity and its \<^verbatim>\<open>stream_id\<close> attribute.\<close>

record http_stream =
  hs_obj :: nat
  hs_stream_id :: nat

definition begin_stream ::
  "'e h2_engine \<Rightarrow> nat \<Rightarrow> 'e connection \<Rightarrow> (nat \<times> 'e connection, 'e connection) outcome" where
  "begin_stream ops obj s =
     (case h2conn s of
        None \<Rightarrow> Raised AttributeError s
      | Some e \<Rightarrow>
          (let sid = get_next_available_stream_id ops e
           in Returned (sid, s\<lparr>ongoing_streams := (ongoing_streams s)(sid \<mapsto> obj)\<rparr>)))"

definition end_stream :: "http_stream \<Rightarrow> 'e connection \<Rightarrow> ('e connection, 'e connection) outcome" where
  "end_stream st s =
     (if hs_stream_id st \<in> dom (ongoing_streams s) then
        Returned (s\<lparr>ongoing_streams := (ongoing_streams s)(hs_stream_id st := None)\<rparr>)
      else Raised KeyError s)"

text \<open>
  \<^verbatim>\<open>self.event_handlers.get(event, set())\<close> is the set stored under \<open>event\<close>, or a new empty
  set that is stored nowhere.  The dictionary is keyed by the identity of the object.  A set is a list without repetition here; \<^verbatim>\<open>set.add\<close> is
  \<open>List.insert\<close>, and \<^verbatim>\<open>set.remove\<close> raises \<^verbatim>\<open>KeyError\<close> on a missing element.
\<close>

definition add_event_handler :: "event \<Rightarrow> nat \<Rightarrow> 'e connection \<Rightarrow> 'e connection" where
  "add_event_handler ev handler s =
     (case event_handlers s (ev_id ev) of
        None \<Rightarrow> s
      | Some hs \<Rightarrow>
          s\<lparr>event_handlers := (event_handlers s)(ev_id ev \<mapsto> List.insert handler hs)\<rparr>)"

definition remove_event_handler ::
  "event \<Rightarrow> nat \<Rightarrow> 'e connection \<Rightarrow> ('e connection, 'e connection) outcome" where
  "remove_event_handler ev handler s =
     (case event_handlers s (ev_id ev) of
        None \<Rightarrow> Raised KeyError s
      | Some hs \<Rightarrow>
          if handler \<in> set hs then
            Returned (s\<lparr>event_handlers := (event_handlers s)(ev_id ev \<mapsto> remove1 handler hs)\<rparr>)
          else Raised KeyError s)"

subsection \<open>Reading outcomes and traces\<close>

text \<open>The state a call leaves behind, whether it returned or raised.\<close>

fun final :: "('s, 's) outcome \<Rightarrow> 's" where
  "final (Returned s) = s"
| "final (Raised x s) = s"

fun final_snd :: "('a \<times> 's, 's) outcome \<Rightarrow> 's" where
  "final_snd (Returned (n, s)) = s"
| "final_snd (Raised x s) = s"

text \<open>The reasons \<^verbatim>\<open>on_connection_closed\<close> was called with, in order.\<close>

fun closed_reason :: "effect \<Rightarrow> reason list" where
  "closed_reason (ConnectionClosed r) = [r]"
| "closed_reason _ = []"

definition closed_callbacks :: "effect list \<Rightarrow> reason list" where
  "closed_callbacks es = concat (map closed_reason es)"

text \<open>The IOStreams that were closed, in order.\<close>

fun transport_close :: "effect \<Rightarrow> nat list" where
  "transport_close (StreamClose i) = [i]"
| "transport_close _ = []"

definition transport_closes :: "effect list \<Rightarrow> nat list" where
  "transport_closes es = concat (map transport_close es)"

text \<open>The calls of \<^verbatim>\<open>handle_event\<close>: handler and event, in order.\<close>

fun delivery :: "effect \<Rightarrow> (nat \<times> event) list" where
  "delivery (HandleEvent h ev) = [(h, ev)]"
| "delivery _ = []"

definition deliveries :: "effect list \<Rightarrow> (nat \<times> event) list" where
  "deliveries es = concat (map delivery es)"

text \<open>The flow-control and flush calls in a trace: credit increments, \<^verbatim>\<open>data_to_send\<close> and writes.\<close>

fun engine_command :: "effect \<Rightarrow> effect list" where
  "engine_command (IncrementStream n k) = [IncrementStream n k]"
| "engine_command (IncrementConnection n) = [IncrementConnection n]"
| "engine_command DataToSend = [DataToSend]"
| "engine_command (StreamWrite i d) = [StreamWrite i d]"
| "engine_command _ = []"

definition engine_commands :: "effect list \<Rightarrow> effect list" where
  "engine_commands es = concat (map engine_command es)"

text \<open>
  The calls of a flush when the engine is in the state \<open>e\<close>: \<^verbatim>\<open>data_to_send()\<close>, and a write of
  what it returned if that is not empty.
\<close>

definition flush_calls :: "'e h2_engine \<Rightarrow> iostream \<Rightarrow> 'e \<Rightarrow> effect list" where
  "flush_calls ops io e =
     DataToSend # (if fst (data_to_send ops e) = [] then []
                   else [StreamWrite (ios_id io) (fst (data_to_send ops e))])"

text \<open>
  What a call leaves alone: the connection is as connected as before, holds the same
  IOStream, timer, registries, has an engine exactly if it had one, and neither
  \<^verbatim>\<open>on_connection_closed\<close> nor \<^verbatim>\<open>close()\<close> of an IOStream was called.
\<close>

definition undisturbed :: "'e connection \<Rightarrow> 'e connection \<Rightarrow> bool" where
  "undisturbed s s' \<longleftrightarrow>
     is_connected s' = is_connected s \<and> stream s' = stream s \<and> timed_out s' = timed_out s \<and>
     connect_timeout_t s' = connect_timeout_t s \<and> ongoing_streams s' = ongoing_streams s \<and>
     event_handlers s' = event_handlers s \<and> (h2conn s' = None) = (h2conn s = None) \<and>
     closed_callbacks (effects s') = closed_callbacks (effects s) \<and>
     transport_closes (effects s') = transport_closes (effects s)"

text \<open>
  The quantities the flow-control statements speak of: the bytes a batch delivers on the
  stream id \<open>k\<close>, and the bytes it delivers in all.
\<close>

definition data_bytes :: "nat option \<Rightarrow> event \<Rightarrow> nat" where
  "data_bytes k ev =
     (if kind ev = DataReceived \<and> stream_id ev = k then flow_controlled_length ev else 0)"

definition stream_bytes :: "nat option \<Rightarrow> event list \<Rightarrow> nat" where
  "stream_bytes k evs = sum_list (map (data_bytes k) evs)"

definition batch_bytes :: "event list \<Rightarrow> nat" where
  "batch_bytes evs =
     sum_list (map (\<lambda>ev. if kind ev = DataReceived then flow_controlled_length ev else 0) evs)"

text \<open>The locals of \<^verbatim>\<open>process_events\<close> before its first loop.\<close>

definition fresh_locals :: locals where
  "fresh_locals = \<lparr>recv_streams = [], settings_updated = False, connection_terminated = False\<rparr>"

fun stream_credit :: "nat option \<times> nat \<Rightarrow> effect" where
  "stream_credit (k, n) = IncrementStream n k"

fun nonzero :: "nat option \<times> nat \<Rightarrow> bool" where
  "nonzero (k, n) = (n \<noteq> 0)"

subsection \<open>A scripted engine and concrete connections\<close>

text \<open>
  An engine to run the model on: its state is the bytes it has queued for sending; it decodes
  with the given function, reports the listed streams as closed by the peer, and rejects an
  increment of zero.
\<close>

definition scripted_engine :: "(bytes \<Rightarrow> exn + event list) \<Rightarrow> nat list \<Rightarrow> bytes h2_engine" where
  "scripted_engine decode closed =
     \<lparr>new_connection = [],
      initiate_connection = (\<lambda>e. e @ [80, 82, 73]),
      update_settings = (\<lambda>e. e @ [4]),
      receive_data = (\<lambda>e d. (decode d, e)),
      increment_flow_control_window =
        (\<lambda>e n k. if n = 0 then (Some (OtherException 22), e)
                 else if k \<in> set (map Some closed) then (Some StreamClosedError, e)
                 else (None, e @ [8])),
      data_to_send = (\<lambda>e. (e, [])),
      get_next_available_stream_id = (\<lambda>e. 1)\<rparr>"

definition engine0 :: "bytes h2_engine" where
  "engine0 = scripted_engine (\<lambda>d. Inr []) []"

definition io0 :: iostream where
  "io0 = \<lparr>ios_id = 1, ios_error = None, ios_close_raises = False, ios_nodelay = False,
          ios_close_callback = None\<rparr>"

definition fresh_connection :: "bytes connection" where
  "fresh_connection = init ''example.org'' 443 5"

text \<open>Connected, with three streams registered under the ids 1, 3 and 5.\<close>

definition connected0 :: "bytes connection" where
  "connected0 =
     (final (on_connect engine0 io0 (connect 0 fresh_connection)))
       \<lparr>ongoing_streams := [1 \<mapsto> 11, 3 \<mapsto> 13, 5 \<mapsto> 15]\<rparr>"

text \<open>Handlers and observers that return.\<close>

definition quiet_handlers :: handlers where
  "quiet_handlers = \<lparr>handle_event = (\<lambda>tr h ev. Handled), observer_call = (\<lambda>tr h ev. None)\<rparr>"

text \<open>
  A data event of \<open>n\<close> bytes for the stream \<open>sid\<close>; the batches below hold one event for a
  stream, and the stream id serves as the identity of the object.
\<close>

definition data_event :: "nat \<Rightarrow> nat \<Rightarrow> event" where
  "data_event sid n =
     \<lparr>ev_id = sid, kind = DataReceived, stream_id = Some sid, flow_controlled_length = n\<rparr>"

definition terminated_event :: event where
  "terminated_event =
     \<lparr>ev_id = 0, kind = ConnectionTerminated, stream_id = None, flow_controlled_length = 0\<rparr>"

section \<open>Properties of the operations\<close>

subsection \<open>The closure path\<close>

lemma closed_callbacks_append [simp]:
  "closed_callbacks (xs @ ys) = closed_callbacks xs @ closed_callbacks ys"
  by (simp add: closed_callbacks_def)

lemma closed_callbacks_Nil [simp]: "closed_callbacks [] = []"
  by (simp add: closed_callbacks_def)

lemma transport_closes_append [simp]:
  "transport_closes (xs @ ys) = transport_closes xs @ transport_closes ys"
  by (simp add: transport_closes_def)

lemma on_close_effects:
  "effects (on_close r s) =
     effects s @ (case stream s of None \<Rightarrow> [] | Some io \<Rightarrow> [StreamClose (ios_id io)]) @ [ConnectionClosed r]"
  by (simp add: on_close_def emit_def logmsg_def Let_def split: option.splits)

lemma on_close_fields:
  "is_connected (on_close r s) = False" "h2conn (on_close r s) = None" "stream (on_close r s) = None"
  by (simp_all add: on_close_def emit_def logmsg_def Let_def split: option.splits)

lemma on_close_callbacks: "closed_callbacks (effects (on_close r s)) = closed_callbacks (effects s) @ [r]"
  by (cases "stream s") (simp_all add: on_close_effects closed_callbacks_def)

lemma fold_on_close_callbacks:
  "closed_callbacks (effects (fold on_close rs s)) = closed_callbacks (effects s) @ rs"
  by (induction rs arbitrary: s) (simp_all add: on_close_callbacks)

lemma on_close_again:
  "on_close r' (on_close r s) =
     (on_close r s)\<lparr>effects := effects (on_close r s) @ [ConnectionClosed r'],
                    logged := logged (on_close r s) @ [InfoClosedWithReason r']\<rparr>"
  by (simp add: on_close_def emit_def logmsg_def Let_def split: option.splits)

subsection \<open>The ledger of a batch\<close>

lemma map_of_recv_set: "map_of (recv_set rs k v) = (map_of rs)(k \<mapsto> v)"
  by (induction rs) (auto simp: fun_eq_iff)

lemma keys_recv_set: "fst ` set (recv_set rs k v) = insert k (fst ` set rs)"
  by (simp add: dom_map_of_conv_image_fst [symmetric] map_of_recv_set)

lemma distinct_recv_set: "distinct (map fst rs) \<Longrightarrow> distinct (map fst (recv_set rs k v))"
proof (induction rs)
  case Nil
  then show ?case by simp
next
  case (Cons a rs)
  obtain k' v' where a: "a = (k', v')" by (cases a)
  show ?case
  proof (cases "k' = k")
    case True
    with Cons.prems a show ?thesis by simp
  next
    case False
    have "k' \<notin> set (map fst (recv_set rs k v))"
      using Cons.prems a False by (simp add: keys_recv_set)
    with Cons a False show ?thesis by simp
  qed
qed

lemma sum_recv_set:
  "distinct (map fst rs) \<Longrightarrow>
   sum_list (map snd (recv_set rs k (recv_get rs k + n))) = sum_list (map snd rs) + n"
proof (induction rs)
  case Nil
  then show ?case by (simp add: recv_get_def)
next
  case (Cons a rs)
  obtain k' v' where a: "a = (k', v')" by (cases a)
  show ?case
  proof (cases "k' = k")
    case True
    then show ?thesis using a by (simp add: recv_get_def)
  next
    case False
    then have "recv_get (a # rs) k = recv_get rs k" using a by (simp add: recv_get_def)
    with Cons a False show ?thesis by simp
  qed
qed

lemma recv_get_recv_set:
  "recv_get (recv_set rs k v) k' = (if k' = k then v else recv_get rs k')"
  by (simp add: recv_get_def map_of_recv_set)

lemma dispatch_locals:
  "dispatch env evs l s = Returned (l', s') \<Longrightarrow> l' = foldl (\<lambda>l ev. classify ev l) l evs"
proof (induction evs arbitrary: l s)
  case Nil
  then show ?case by simp
next
  case (Cons ev evs)
  then show ?case by (auto split: outcome.splits)
qed

lemma classify_distinct:
  "distinct (map fst (recv_streams l)) \<Longrightarrow> distinct (map fst (recv_streams (classify ev l)))"
  by (simp add: classify_def distinct_recv_set)

lemma classify_get:
  "recv_get (recv_streams (classify ev l)) k = recv_get (recv_streams l) k + data_bytes k ev"
  by (auto simp: classify_def data_bytes_def recv_get_recv_set)

lemma classify_sum:
  "distinct (map fst (recv_streams l)) \<Longrightarrow>
   sum_list (map snd (recv_streams (classify ev l))) =
     sum_list (map snd (recv_streams l)) + (if kind ev = DataReceived then flow_controlled_length ev else 0)"
  by (simp add: classify_def sum_recv_set)

lemma classify_settings:
  "settings_updated (classify ev l) = (settings_updated l \<or> kind ev = RemoteSettingsChanged)"
  by (auto simp: classify_def)

lemma foldl_classify_distinct:
  "distinct (map fst (recv_streams l)) \<Longrightarrow>
   distinct (map fst (recv_streams (foldl (\<lambda>l ev. classify ev l) l evs)))"
  by (induction evs arbitrary: l) (simp_all add: classify_distinct)

lemma foldl_classify_get:
  "recv_get (recv_streams (foldl (\<lambda>l ev. classify ev l) l evs)) k =
     recv_get (recv_streams l) k + sum_list (map (data_bytes k) evs)"
  by (induction evs arbitrary: l) (simp_all add: classify_get)

lemma foldl_classify_sum:
  "distinct (map fst (recv_streams l)) \<Longrightarrow>
   sum_list (map snd (recv_streams (foldl (\<lambda>l ev. classify ev l) l evs))) =
     sum_list (map snd (recv_streams l)) +
     sum_list (map (\<lambda>ev. if kind ev = DataReceived then flow_controlled_length ev else 0) evs)"
  by (induction evs arbitrary: l) (simp_all add: classify_distinct classify_sum)

lemma foldl_classify_settings:
  "settings_updated (foldl (\<lambda>l ev. classify ev l) l evs) =
     (settings_updated l \<or> (\<exists>ev \<in> set evs. kind ev = RemoteSettingsChanged))"
  by (induction evs arbitrary: l) (auto simp: classify_settings)

subsection \<open>What the data pump leaves alone\<close>

lemma undisturbed_refl: "undisturbed s s"
  by (simp add: undisturbed_def)

lemma undisturbed_trans: "undisturbed s s' \<Longrightarrow> undisturbed s' s'' \<Longrightarrow> undisturbed s s''"
  by (simp add: undisturbed_def)

lemma undisturbed_logmsg: "undisturbed s (logmsg m s)"
  by (simp add: undisturbed_def logmsg_def)

lemma undisturbed_emit:
  "closed_callbacks es = [] \<Longrightarrow> transport_closes es = [] \<Longrightarrow> undisturbed s (emit es s)"
  by (simp add: undisturbed_def emit_def)

lemma undisturbed_route: "undisturbed s (final (route env ev s))"
proof (cases "id_truthy (stream_id ev) \<and> the (stream_id ev) \<in> dom (ongoing_streams s)")
  case True
  let ?h = "the (ongoing_streams s (the (stream_id ev)))"
  have a: "undisturbed s (emit [HandleEvent ?h ev] s)"
    by (rule undisturbed_emit) (simp_all add: closed_callbacks_def transport_closes_def)
  have b: "undisturbed s (emit [HandleException ?h x] (emit [HandleEvent ?h ev] s))" for x
    by (rule undisturbed_trans [OF a], rule undisturbed_emit)
       (simp_all add: closed_callbacks_def transport_closes_def)
  from True a b show ?thesis
    by (cases "handle_event env (effects s) ?h ev") (simp_all add: route_def Let_def)
next
  case False
  then show ?thesis by (auto simp: route_def undisturbed_logmsg)
qed

lemma undisturbed_call_observers: "undisturbed s (final (call_observers env hs ev s))"
proof (induction hs arbitrary: s)
  case Nil
  show ?case by (simp add: undisturbed_refl)
next
  case (Cons h hs)
  have a: "undisturbed s (emit [ObserverCall h ev] s)"
    by (rule undisturbed_emit) (simp_all add: closed_callbacks_def transport_closes_def)
  show ?case
  proof (cases "observer_call env (effects s) h ev")
    case None
    with undisturbed_trans [OF a Cons.IH] show ?thesis by simp
  next
    case (Some x)
    with a show ?thesis by simp
  qed
qed

lemma undisturbed_observe: "undisturbed s (final (observe env ev s))"
  by (cases "event_handlers s (ev_id ev)")
     (simp_all add: observe_def undisturbed_refl undisturbed_call_observers)

lemma undisturbed_dispatch: "undisturbed s (final_snd (dispatch env evs l s))"
proof (induction evs arbitrary: l s)
  case Nil
  show ?case by (simp add: undisturbed_refl)
next
  case (Cons ev evs)
  let ?s0 = "logmsg (InfoProcessingEvent ev) s"
  have u0: "undisturbed s ?s0" by (rule undisturbed_logmsg)
  have u1: "undisturbed s (final (route env ev ?s0))"
    by (rule undisturbed_trans [OF u0 undisturbed_route])
  show ?case
  proof (cases "route env ev ?s0")
    case (Raised x s1)
    with u1 show ?thesis by simp
  next
    case (Returned s1)
    with u1 have u1': "undisturbed s s1" by simp
    have u2: "undisturbed s (final (observe env ev s1))"
      by (rule undisturbed_trans [OF u1' undisturbed_observe])
    show ?thesis
    proof (cases "observe env ev s1")
      case (Raised x s2)
      with u2 Returned show ?thesis by simp
    next
      case R2: (Returned s2)
      with u2 have "undisturbed s s2" by simp
      from undisturbed_trans [OF this Cons.IH] Returned R2 show ?thesis by simp
    qed
  qed
qed

lemma undisturbed_credit_streams: "undisturbed s (final_snd (credit_streams ops rs rc s))"
proof (induction rs arbitrary: rc s)
  case Nil
  show ?case by (simp add: undisturbed_refl)
next
  case (Cons a rs)
  obtain sid n where a: "a = (sid, n)" by (cases a)
  show ?case
  proof (cases "n = 0")
    case True
    with a Cons.IH show ?thesis by simp
  next
    case False
    let ?s1 = "logmsg (InfoTryingIncrement sid n) s"
    show ?thesis
    proof (cases "h2conn s")
      case None
      with a False show ?thesis by (simp add: undisturbed_logmsg logmsg_def undisturbed_def)
    next
      case (Some e)
      obtain r e' where inc: "increment_flow_control_window ops e n sid = (r, e')"
        by (cases "increment_flow_control_window ops e n sid")
      let ?s2 = "emit [IncrementStream n sid] (?s1\<lparr>h2conn := Some e'\<rparr>)"
      have u2: "undisturbed s ?s2"
        using Some by (simp add: undisturbed_def emit_def logmsg_def closed_callbacks_def transport_closes_def)
      have u3: "undisturbed s (logmsg WarnIncrementClosedStream ?s2)"
        using u2 undisturbed_logmsg by (rule undisturbed_trans)
      show ?thesis
      proof (cases r)
        case None
        have "undisturbed ?s2 (final_snd (credit_streams ops rs (rc + n) ?s2))" by (rule Cons.IH)
        with u2 have "undisturbed s (final_snd (credit_streams ops rs (rc + n) ?s2))"
          by (rule undisturbed_trans)
        with a False Some inc None show ?thesis by (simp add: logmsg_def Let_def)
      next
        case (Some x)
        show ?thesis
        proof (cases "x = StreamClosedError")
          case True
          have "undisturbed (logmsg WarnIncrementClosedStream ?s2)
                  (final_snd (credit_streams ops rs (rc + n) (logmsg WarnIncrementClosedStream ?s2)))"
            by (rule Cons.IH)
          with u3 have "undisturbed s
                  (final_snd (credit_streams ops rs (rc + n) (logmsg WarnIncrementClosedStream ?s2)))"
            by (rule undisturbed_trans)
          with a False \<open>h2conn s = Some e\<close> inc Some True show ?thesis by (simp add: logmsg_def Let_def)
        next
          case False
          with a \<open>n \<noteq> 0\<close> \<open>h2conn s = Some e\<close> inc Some u2 show ?thesis by (simp add: logmsg_def Let_def)
        qed
      qed
    qed
  qed
qed

lemma undisturbed_credit_connection: "undisturbed s (final (credit_connection ops rc s))"
proof (cases "h2conn s")
  case None
  then show ?thesis by (simp add: credit_connection_def logmsg_def undisturbed_def Let_def)
next
  case (Some e)
  obtain r e' where "increment_flow_control_window ops e rc None = (r, e')"
    by (cases "increment_flow_control_window ops e rc None")
  with Some show ?thesis
    by (cases r)
       (simp_all add: credit_connection_def logmsg_def emit_def undisturbed_def Let_def
          closed_callbacks_def transport_closes_def)
qed

lemma undisturbed_flush: "undisturbed s (final (flush ops s))"
proof (cases "h2conn s")
  case None
  then show ?thesis by (simp add: flush_def undisturbed_def)
next
  case (Some e)
  obtain d e' where "data_to_send ops e = (d, e')" by (cases "data_to_send ops e")
  with Some show ?thesis
    by (cases "stream s")
       (simp_all add: flush_def logmsg_def emit_def undisturbed_def Let_def
          closed_callbacks_def transport_closes_def)
qed

lemma undisturbed_process_events: "undisturbed s (final (process_events ops env evs s))"
proof (cases "dispatch env evs fresh_locals s")
  case (Raised x s1)
  with undisturbed_dispatch [of s env evs fresh_locals] show ?thesis
    by (simp add: process_events_def fresh_locals_def)
next
  case (Returned q)
  obtain l s1 where q: "q = (l, s1)" by (cases q)
  have d: "dispatch env evs \<lparr>recv_streams = [], settings_updated = False,
                              connection_terminated = False\<rparr> s = Returned (l, s1)"
    using Returned q by (simp add: fresh_locals_def)
  have u1: "undisturbed s s1"
    using undisturbed_dispatch [of s env evs fresh_locals] Returned q by simp
  show ?thesis
  proof (cases "credit_streams ops (recv_streams l) 0 s1")
    case (Raised x s2)
    with undisturbed_credit_streams [of s1 ops "recv_streams l" 0] u1 d show ?thesis
      by (auto simp: process_events_def intro: undisturbed_trans)
  next
    case C: (Returned p)
    obtain rc s2 where p: "p = (rc, s2)" by (cases p)
    have u2: "undisturbed s s2"
      using undisturbed_credit_streams [of s1 ops "recv_streams l" 0] u1 C p
      by (auto intro: undisturbed_trans)
    let ?c = "if rc \<noteq> 0 then credit_connection ops rc s2 else Returned s2"
    have u3: "undisturbed s (final ?c)"
      using u2 undisturbed_credit_connection [of s2 ops rc]
      by (auto intro: undisturbed_trans)
    show ?thesis
    proof (cases ?c)
      case (Raised x s3)
      with u3 d C p show ?thesis by (simp add: process_events_def)
    next
      case Ret3: (Returned s3)
      have "undisturbed s (final (flush ops s3))"
        using u3 Ret3 undisturbed_flush [of s3 ops] by (auto intro: undisturbed_trans)
      with u3 d C p Ret3 show ?thesis by (simp add: process_events_def)
    qed
  qed
qed

lemma undisturbed_data_received: "undisturbed s (data_received ops env data s)"
proof (cases "h2conn s")
  case None
  then show ?thesis by (simp add: data_received_def logmsg_def undisturbed_def Let_def)
next
  case (Some e)
  obtain r e' where rd: "receive_data ops e data = (r, e')" by (cases "receive_data ops e data")
  let ?s1 = "emit [ReceiveData data] ((logmsg (InfoReceivedData (length data)) s)\<lparr>h2conn := Some e'\<rparr>)"
  have u1: "undisturbed s ?s1"
    using Some by (simp add: undisturbed_def emit_def logmsg_def closed_callbacks_def transport_closes_def)
  show ?thesis
  proof (cases r)
    case (Inl x)
    have "undisturbed s (logmsg InfoCouldNotProcess ?s1)"
      using u1 undisturbed_logmsg by (rule undisturbed_trans)
    with Some rd Inl show ?thesis by (simp add: data_received_def logmsg_def Let_def)
  next
    case (Inr events)
    let ?s2 = "logmsg (InfoEventsToProcess events) ?s1"
    have u2: "undisturbed s ?s2" using u1 undisturbed_logmsg by (rule undisturbed_trans)
    have u3: "undisturbed s (final (process_events ops env events ?s2))"
      using u2 undisturbed_process_events by (rule undisturbed_trans)
    have u4: "undisturbed s (logmsg InfoCouldNotProcess (final (process_events ops env events ?s2)))"
      using u3 undisturbed_logmsg by (rule undisturbed_trans)
    have "data_received ops env data s =
            (if events \<noteq> [] then
               (case process_events ops env events ?s2 of
                  Returned s3 \<Rightarrow> s3 | Raised x s3 \<Rightarrow> logmsg InfoCouldNotProcess s3)
             else ?s2)"
      using Some rd Inr by (simp add: data_received_def logmsg_def Let_def)
    with u2 u3 u4 show ?thesis
      by (cases "process_events ops env events ?s2") auto
  qed
qed

subsection \<open>Returning credit\<close>

lemma credit_streams_accepted:
  assumes acc: "\<And>e n k. n \<noteq> 0 \<Longrightarrow>
                  fst (increment_flow_control_window ops e n k) = None \<or>
                  fst (increment_flow_control_window ops e n k) = Some StreamClosedError"
  shows "h2conn s \<noteq> None \<Longrightarrow>
         \<exists>s'. credit_streams ops rs rc s = Returned (rc + sum_list (map snd rs), s') \<and>
              effects s' = effects s @ map stream_credit (filter nonzero rs)"
proof (induction rs arbitrary: rc s)
  case Nil
  show ?case by simp
next
  case (Cons a rs)
  obtain sid n where a: "a = (sid, n)" by (cases a)
  show ?case
  proof (cases "n = 0")
    case True
    with a Cons.IH [OF Cons.prems, of rc] show ?thesis by simp
  next
    case False
    from Cons.prems obtain e where e: "h2conn s = Some e" by auto
    obtain r e' where inc: "increment_flow_control_window ops e n sid = (r, e')"
      by (cases "increment_flow_control_window ops e n sid")
    let ?s2 = "emit [IncrementStream n sid] ((logmsg (InfoTryingIncrement sid n) s)\<lparr>h2conn := Some e'\<rparr>)"
    let ?s3 = "logmsg WarnIncrementClosedStream ?s2"
    have r: "r = None \<or> r = Some StreamClosedError" using acc [of n e sid] False inc by simp
    have h2: "h2conn ?s2 \<noteq> None" "h2conn ?s3 \<noteq> None" by (simp_all add: emit_def logmsg_def)
    have e2: "effects ?s2 = effects s @ [IncrementStream n sid]" "effects ?s3 = effects s @ [IncrementStream n sid]"
      by (simp_all add: emit_def logmsg_def)
    from r show ?thesis
    proof
      assume "r = None"
      then have "credit_streams ops (a # rs) rc s = credit_streams ops rs (rc + n) ?s2"
        using a False e inc by (simp add: logmsg_def Let_def)
      with Cons.IH [OF h2(1), of "rc + n"] e2 a False show ?thesis by (auto simp: add.assoc)
    next
      assume "r = Some StreamClosedError"
      then have "credit_streams ops (a # rs) rc s = credit_streams ops rs (rc + n) ?s3"
        using a False e inc by (simp add: logmsg_def Let_def)
      with Cons.IH [OF h2(2), of "rc + n"] e2 a False show ?thesis by (auto simp: add.assoc)
    qed
  qed
qed

lemma credit_connection_accepted:
  assumes "fst (increment_flow_control_window ops e rc None) = None" and "h2conn s = Some e"
  shows "\<exists>s'. credit_connection ops rc s = Returned s' \<and>
              effects s' = effects s @ [IncrementConnection rc]"
proof -
  obtain r e' where "increment_flow_control_window ops e rc None = (r, e')"
    by (cases "increment_flow_control_window ops e rc None")
  with assms show ?thesis
    by (simp add: credit_connection_def logmsg_def emit_def Let_def)
qed

lemma flush_connected:
  assumes "h2conn s = Some e" and "stream s = Some io"
  shows "\<exists>s'. flush ops s = Returned s' \<and> effects s' = effects s @ flush_calls ops io e \<and>
              h2conn s' = Some (snd (data_to_send ops e))"
proof -
  obtain d e' where "data_to_send ops e = (d, e')" by (cases "data_to_send ops e")
  with assms show ?thesis
    by (cases "d = []") (simp_all add: flush_def flush_calls_def logmsg_def emit_def Let_def)
qed

lemma tally_entries:
  assumes "rs = recv_streams (foldl (\<lambda>l ev. classify ev l) fresh_locals evs)"
  shows "distinct (map fst (filter nonzero rs))"
    and "set (filter nonzero rs) = {(k, n). n \<noteq> 0 \<and> n = stream_bytes k evs}"
    and "sum_list (map snd rs) = batch_bytes evs"
proof -
  have d: "distinct (map fst rs)"
    unfolding assms by (rule foldl_classify_distinct) (simp add: fresh_locals_def)
  then show "distinct (map fst (filter nonzero rs))" by (rule distinct_map_filter)
  have z: "recv_get (recv_streams fresh_locals) k = 0" for k
    by (simp add: fresh_locals_def recv_get_def)
  have g: "recv_get rs k = stream_bytes k evs" for k
    unfolding assms by (simp add: foldl_classify_get z stream_bytes_def)
  have m: "((k, n) \<in> set rs) = (map_of rs k = Some n)" for k n
    using d by simp
  show "set (filter nonzero rs) = {(k, n). n \<noteq> 0 \<and> n = stream_bytes k evs}"
  proof (rule set_eqI)
    fix p :: "nat option \<times> nat"
    obtain k n where p: "p = (k, n)" by (cases p)
    have "(map_of rs k = Some n \<and> n \<noteq> 0) = (n \<noteq> 0 \<and> n = stream_bytes k evs)"
      using g [of k] by (cases "map_of rs k") (auto simp: recv_get_def)
    with p m [of k n] show "(p \<in> set (filter nonzero rs)) = (p \<in> {(k, n). n \<noteq> 0 \<and> n = stream_bytes k evs})"
      by auto
  qed
  show "sum_list (map snd rs) = batch_bytes evs"
    unfolding assms batch_bytes_def
    by (subst foldl_classify_sum) (simp_all add: fresh_locals_def)
qed

lemma engine_commands_append [simp]:
  "engine_commands (xs @ ys) = engine_commands xs @ engine_commands ys"
  by (simp add: engine_commands_def)

lemma engine_commands_credits [simp]: "engine_commands (map stream_credit per) = map stream_credit per"
  by (induction per) (auto simp: engine_commands_def)

lemma engine_commands_flush_calls [simp]: "engine_commands (flush_calls ops io e) = flush_calls ops io e"
  by (simp add: engine_commands_def flush_calls_def)

lemma engine_commands_connection:
  "engine_commands (IncrementConnection n # es) = IncrementConnection n # engine_commands es"
  by (simp add: engine_commands_def)

lemma engine_commands_emit:
  "engine_commands es = [] \<Longrightarrow> engine_commands (effects (emit es s)) = engine_commands (effects s)"
  by (simp add: emit_def)

lemma engine_commands_route:
  "engine_commands (effects (final (route env ev s))) = engine_commands (effects s)"
proof (cases "id_truthy (stream_id ev) \<and> the (stream_id ev) \<in> dom (ongoing_streams s)")
  case True
  then show ?thesis
    by (cases "handle_event env (effects s) (the (ongoing_streams s (the (stream_id ev)))) ev")
       (simp_all add: route_def Let_def emit_def engine_commands_def)
next
  case False
  then show ?thesis by (auto simp: route_def logmsg_def)
qed

lemma engine_commands_call_observers:
  "engine_commands (effects (final (call_observers env hs ev s))) = engine_commands (effects s)"
proof (induction hs arbitrary: s)
  case Nil
  show ?case by simp
next
  case (Cons h hs)
  have a: "engine_commands (effects (emit [ObserverCall h ev] s)) = engine_commands (effects s)"
    by (rule engine_commands_emit) (simp add: engine_commands_def)
  show ?case
    by (cases "observer_call env (effects s) h ev") (simp_all add: Cons.IH a)
qed

lemma engine_commands_observe:
  "engine_commands (effects (final (observe env ev s))) = engine_commands (effects s)"
  by (cases "event_handlers s (ev_id ev)") (simp_all add: observe_def engine_commands_call_observers)

lemma engine_commands_dispatch:
  "engine_commands (effects (final_snd (dispatch env evs l s))) = engine_commands (effects s)"
proof (induction evs arbitrary: l s)
  case Nil
  show ?case by simp
next
  case (Cons ev evs)
  let ?s0 = "logmsg (InfoProcessingEvent ev) s"
  have c0: "engine_commands (effects ?s0) = engine_commands (effects s)" by (simp add: logmsg_def)
  have c1: "engine_commands (effects (final (route env ev ?s0))) = engine_commands (effects s)"
    by (simp add: engine_commands_route c0)
  show ?case
  proof (cases "route env ev ?s0")
    case (Raised x s1)
    with c1 show ?thesis by simp
  next
    case (Returned s1)
    with c1 have c1': "engine_commands (effects s1) = engine_commands (effects s)" by simp
    have c2: "engine_commands (effects (final (observe env ev s1))) = engine_commands (effects s)"
      by (simp add: engine_commands_observe c1')
    show ?thesis
    proof (cases "observe env ev s1")
      case (Raised x s2)
      with c2 Returned show ?thesis by simp
    next
      case R2: (Returned s2)
      with c2 have "engine_commands (effects s2) = engine_commands (effects s)" by simp
      with Cons.IH [of "classify ev l" s2] Returned R2 show ?thesis by simp
    qed
  qed
qed

text \<open>When no exception leaves a handler or an observer, the first loop runs to its end.\<close>

lemma route_returns:
  assumes "\<And>tr h ev x. handle_event env tr h ev \<noteq> Escaped x"
  shows "\<exists>s'. route env ev s = Returned s'"
proof (cases "id_truthy (stream_id ev) \<and> the (stream_id ev) \<in> dom (ongoing_streams s)")
  case True
  with assms show ?thesis
    by (cases "handle_event env (effects s) (the (ongoing_streams s (the (stream_id ev)))) ev")
       (auto simp: route_def Let_def)
next
  case False
  then show ?thesis by (auto simp: route_def)
qed

lemma call_observers_returns:
  assumes "\<And>tr h ev. observer_call env tr h ev = None"
  shows "\<exists>s'. call_observers env hs ev s = Returned s'"
  by (induction hs arbitrary: s) (simp_all add: assms)

lemma observe_returns:
  assumes "\<And>tr h ev. observer_call env tr h ev = None"
  shows "\<exists>s'. observe env ev s = Returned s'"
  by (cases "event_handlers s (ev_id ev)") (simp_all add: observe_def call_observers_returns [OF assms])

lemma dispatch_returns:
  assumes h: "\<And>tr h ev x. handle_event env tr h ev \<noteq> Escaped x"
    and ob: "\<And>tr h ev. observer_call env tr h ev = None"
  shows "\<exists>l' s'. dispatch env evs l s = Returned (l', s')"
proof (induction evs arbitrary: l s)
  case Nil
  show ?case by simp
next
  case (Cons ev evs)
  from route_returns [OF h] obtain s1 where
    r: "route env ev (logmsg (InfoProcessingEvent ev) s) = Returned s1" by blast
  from observe_returns [OF ob] obtain s2 where o: "observe env ev s1 = Returned s2" by blast
  from Cons.IH [of "classify ev l" s2] r o show ?case by simp
qed

subsection \<open>Dispatch\<close>

lemma deliveries_append [simp]: "deliveries (xs @ ys) = deliveries xs @ deliveries ys"
  by (simp add: deliveries_def)

lemma deliveries_call_observers:
  "deliveries (effects (final (call_observers env hs ev s))) = deliveries (effects s)"
proof (induction hs arbitrary: s)
  case Nil
  show ?case by simp
next
  case (Cons h hs)
  have a: "deliveries (effects (emit [ObserverCall h ev] s)) = deliveries (effects s)"
    by (simp add: emit_def) (simp add: deliveries_def)
  show ?case
    by (cases "observer_call env (effects s) h ev") (simp_all add: Cons.IH a)
qed

lemma deliveries_observe:
  "deliveries (effects (final (observe env ev s))) = deliveries (effects s)"
  by (cases "event_handlers s (ev_id ev)") (simp_all add: observe_def deliveries_call_observers)

lemma dispatch_one:
  "dispatch env [ev] l s =
     (case route env ev (logmsg (InfoProcessingEvent ev) s) of
        Raised x s1 \<Rightarrow> Raised x s1
      | Returned s1 \<Rightarrow>
          (case observe env ev s1 of
             Raised x s2 \<Rightarrow> Raised x s2
           | Returned s2 \<Rightarrow> Returned (classify ev l, s2)))"
  by (simp split: outcome.splits)

lemma final_snd_dispatch_one:
  "final_snd (dispatch env [ev] l s) =
     (case route env ev (logmsg (InfoProcessingEvent ev) s) of
        Raised x s1 \<Rightarrow> s1
      | Returned s1 \<Rightarrow> final (observe env ev s1))"
  by (simp split: outcome.splits)

lemma dispatch_ledger:
  assumes "dispatch env evs fresh_locals s = Returned (l', s')"
  shows "recv_get (recv_streams l') k = stream_bytes k evs"
  using dispatch_locals [OF assms]
  by (simp add: foldl_classify_get stream_bytes_def) (simp add: fresh_locals_def recv_get_def)

lemma route_unregistered:
  assumes "id_truthy (stream_id ev)" and "the (stream_id ev) \<notin> dom (ongoing_streams s)"
  shows "route env ev s = Returned (logmsg (WarnEventForUnregisteredStream ev) s)"
  using assms by (simp add: route_def)

lemma route_registered:
  assumes "id_truthy (stream_id ev)" and "ongoing_streams s (the (stream_id ev)) = Some h"
  shows "deliveries (effects (final (route env ev s))) = deliveries (effects s) @ [(h, ev)]"
proof -
  have d: "the (stream_id ev) \<in> dom (ongoing_streams s)" using assms(2) by auto
  show ?thesis
    using assms d
    by (cases "handle_event env (effects s) h ev")
       (simp_all add: route_def Let_def emit_def, simp_all add: deliveries_def)
qed

subsection \<open>Connecting and timing out\<close>




lemma on_connect_in_time:
  assumes "\<not> timed_out s"
  shows "\<exists>s1. on_connect ops io s = Returned s1 \<and> is_connected s1 \<and>
              stream s1 = Some (io\<lparr>ios_nodelay := True, ios_close_callback := Some (ios_error io)\<rparr>) \<and>
              h2conn s1 \<noteq> None"
proof -
  obtain d e' where "data_to_send ops (update_settings ops (initiate_connection ops (new_connection ops))) = (d, e')"
    by (cases "data_to_send ops (update_settings ops (initiate_connection ops (new_connection ops)))")
  with assms show ?thesis
    by (cases "d = []") (simp_all add: on_connect_def flush_def emit_def logmsg_def Let_def)
qed

subsection \<open>The concrete connections\<close>

lemma connected0_eq:
  "connected0 =
     \<lparr>host = ''example.org'', port = 443, connect_timeout = 5, is_connected = True,
      timed_out = False,
      stream = Some \<lparr>ios_id = 1, ios_error = None, ios_close_raises = False, ios_nodelay = True,
                      ios_close_callback = Some None\<rparr>,
      connect_timeout_t = TNone, h2conn = Some [],
      ongoing_streams = [1 \<mapsto> 11, 3 \<mapsto> 13, 5 \<mapsto> 15], event_handlers = Map.empty,
      ssl_context = parse_ssl_opts 443,
      effects = [AddTimeout 5, TcpConnect ''example.org'' 443 (parse_ssl_opts 443),
                 RemoveTimeout (THandle 5), SetNodelay 1, SetCloseCallback 1 None,
                 InitiateConnection, UpdateSettings, ReadBytes 1 65535, DataToSend,
                 StreamWrite 1 [80, 82, 73, 4], AddCallbackReady],
      logged = [InfoStreamOpened 1, InfoFlushing 4]\<rparr>"
  by (simp add: connected0_def fresh_connection_def init_def connect_def on_connect_def flush_def
        engine0_def scripted_engine_def io0_def emit_def logmsg_def Let_def)

lemma connected0_quiet:
  "closed_callbacks (effects connected0) = []" "transport_closes (effects connected0) = []"
  by (simp_all add: connected0_eq closed_callbacks_def transport_closes_def)

lemma on_error_callbacks:
  "closed_callbacks (effects (on_error phase val s)) = closed_callbacks (effects s) @ [Some val]"
  by (simp add: on_error_def on_close_callbacks logmsg_def)

section \<open>The claims\<close>

subsection \<open>C1: the closure path\<close>

text \<open>
  C1, as stated, fails.  \<^verbatim>\<open>on_close\<close> has no guard: a read error (\<^verbatim>\<open>on_error\<close>) followed by a
  second run of the closure path on the connected connection calls
  \<^verbatim>\<open>on_connection_closed\<close> twice, the second time with the second reason.
\<close>

theorem on_close_twice_counterexample:
  "closed_callbacks (effects (on_close None
      (on_error ''during read'' (OtherException 104) connected0))) =
     [Some (OtherException 104), None]"
  by (simp add: on_close_callbacks on_error_callbacks connected0_quiet)

text \<open>
  C1, amended.  Every run of the closure path calls \<^verbatim>\<open>on_connection_closed\<close> once, with the
  reason of that run: running it with the reasons \<open>rs\<close>, one after the other, adds exactly
  \<open>rs\<close> to the callback's calls.  What is idempotent is the state: after a run the connection
  is disconnected, without engine and without IOStream, and a further run changes nothing
  but the log and the trace, where it adds its own callback and no \<^verbatim>\<open>close()\<close>.
\<close>

theorem on_close_calls_back_every_time:
  "closed_callbacks (effects (fold on_close rs s)) = closed_callbacks (effects s) @ rs \<and>
   is_connected (on_close r s) = False \<and> h2conn (on_close r s) = None \<and>
   stream (on_close r s) = None \<and>
   on_close r' (on_close r s) =
     (on_close r s)\<lparr>effects := effects (on_close r s) @ [ConnectionClosed r'],
                    logged := logged (on_close r s) @ [InfoClosedWithReason r']\<rparr>"
  by (simp add: fold_on_close_callbacks on_close_fields on_close_again)

text \<open>
  C1, amended, on the connected connection: three runs, three callbacks.
\<close>

theorem on_close_calls_back_every_time_witness:
  "closed_callbacks (effects (fold on_close [Some (OtherException 104), None, Some KeyError] connected0)) =
     [Some (OtherException 104), None, Some KeyError]"
  using on_close_calls_back_every_time
          [of "[Some (OtherException 104), None, Some KeyError]" connected0 None None]
  by (simp add: connected0_quiet)

subsection \<open>C2: a decode error\<close>

text \<open>
  C2, as stated, fails.  With an engine whose \<^verbatim>\<open>receive_data\<close> raises, \<^verbatim>\<open>data_received\<close> on the
  connected connection calls \<^verbatim>\<open>on_connection_closed\<close> not at all, and the connection stays
  connected.
\<close>

theorem decode_error_counterexample:
  "closed_callbacks (effects (data_received (scripted_engine (\<lambda>d. Inl (OtherException 1)) []) quiet_handlers [0, 255] connected0)) = [] \<and>
   is_connected (data_received (scripted_engine (\<lambda>d. Inl (OtherException 1)) []) quiet_handlers [0, 255] connected0) = True"
  by (simp add: data_received_def scripted_engine_def connected0_eq logmsg_def emit_def closed_callbacks_def)

text \<open>
  C2, amended.  An exception raised by the engine's \<^verbatim>\<open>receive_data\<close> is caught inside
  \<^verbatim>\<open>data_received\<close> and logged; the closure path does not run.  The call feeds the engine and
  writes two log lines, and that is all: \<^verbatim>\<open>on_connection_closed\<close> is not called, no IOStream
  is closed, the connection is as connected as before and holds the same IOStream.
\<close>

theorem data_received_swallows_decode_error:
  assumes "h2conn s = Some e" and "receive_data ops e data = (Inl x, e')"
  shows "data_received ops env data s =
           s\<lparr>h2conn := Some e', effects := effects s @ [ReceiveData data],
              logged := logged s @ [InfoReceivedData (length data), InfoCouldNotProcess]\<rparr> \<and>
         closed_callbacks (effects (data_received ops env data s)) = closed_callbacks (effects s) \<and>
         transport_closes (effects (data_received ops env data s)) = transport_closes (effects s) \<and>
         is_connected (data_received ops env data s) = is_connected s \<and>
         stream (data_received ops env data s) = stream s"
  using assms
  by (simp add: data_received_def logmsg_def emit_def closed_callbacks_def transport_closes_def)

text \<open>
  C2, amended, on the connected connection and an engine that rejects every input.
\<close>

theorem data_received_swallows_decode_error_witness:
  "h2conn connected0 = Some [] \<and>
   receive_data (scripted_engine (\<lambda>d. Inl (OtherException 1)) []) [] [0, 255] = (Inl (OtherException 1), []) \<and>
   data_received (scripted_engine (\<lambda>d. Inl (OtherException 1)) []) quiet_handlers [0, 255] connected0 =
     connected0\<lparr>h2conn := Some [], effects := effects connected0 @ [ReceiveData [0, 255]],
                logged := logged connected0 @ [InfoReceivedData 2, InfoCouldNotProcess]\<rparr>"
proof -
  have h: "h2conn connected0 = Some []" by (simp add: connected0_eq)
  have r: "receive_data (scripted_engine (\<lambda>d. Inl (OtherException 1)) []) [] [0, 255] = (Inl (OtherException 1), [])"
    by (simp add: scripted_engine_def)
  show ?thesis
    using h r data_received_swallows_decode_error [OF h r] by simp
qed

subsection \<open>C3: a connection-termination event\<close>

text \<open>
  C3: what the code does.  \<^verbatim>\<open>process_events\<close> sets its local \<^verbatim>\<open>connection_terminated\<close> on a
  \<^verbatim>\<open>ConnectionTerminated\<close> event and never reads it.  Whatever the batch holds, such an event
  included, however the handlers end, and whether the call returns or raises, neither \<^verbatim>\<open>process_events\<close> nor
  \<^verbatim>\<open>data_received\<close> closes anything: the connection is as connected as before, holds the same
  IOStream, and neither \<^verbatim>\<open>on_connection_closed\<close> nor \<^verbatim>\<open>close()\<close> is called.
\<close>

theorem termination_event_closes_nothing:
  "is_connected (final (process_events ops env evs s)) = is_connected s \<and>
   stream (final (process_events ops env evs s)) = stream s \<and>
   closed_callbacks (effects (final (process_events ops env evs s))) = closed_callbacks (effects s) \<and>
   transport_closes (effects (final (process_events ops env evs s))) = transport_closes (effects s) \<and>
   is_connected (data_received ops env data s) = is_connected s \<and>
   stream (data_received ops env data s) = stream s \<and>
   closed_callbacks (effects (data_received ops env data s)) = closed_callbacks (effects s) \<and>
   transport_closes (effects (data_received ops env data s)) = transport_closes (effects s)"
  using undisturbed_process_events [of s ops env evs] undisturbed_data_received [of s ops env data]
  by (simp add: undisturbed_def)

text \<open>
  C3 on a batch of a data event for the registered stream 1 and a \<^verbatim>\<open>ConnectionTerminated\<close>:
  the connection is still connected afterwards, and nothing was closed.
\<close>

theorem termination_event_closes_nothing_witness:
  "is_connected (final (process_events engine0 quiet_handlers [data_event 1 5, terminated_event] connected0)) = True \<and>
   stream (final (process_events engine0 quiet_handlers [data_event 1 5, terminated_event] connected0)) = stream connected0 \<and>
   closed_callbacks (effects (final (process_events engine0 quiet_handlers [data_event 1 5, terminated_event] connected0))) = [] \<and>
   transport_closes (effects (final (process_events engine0 quiet_handlers [data_event 1 5, terminated_event] connected0))) = []"
  using termination_event_closes_nothing
          [of engine0 quiet_handlers "[data_event 1 5, terminated_event]" connected0 "[]"]
  by (simp add: connected0_quiet) (simp add: connected0_eq)

subsection \<open>C4: connecting twice\<close>

text \<open>
  C4, as stated, fails.  \<^verbatim>\<open>connect\<close> tests the timeout handle, which \<^verbatim>\<open>on_connect\<close> resets to
  \<^verbatim>\<open>None\<close>: on the connected connection a second \<^verbatim>\<open>connect\<close> arms a new timer and starts a new
  TCP connect.
\<close>

theorem connect_while_connected_counterexample:
  "is_connected connected0 = True \<and>
   connect_timeout_t (connect 7 connected0) = THandle 12 \<and>
   effects (connect 7 connected0) =
     effects connected0 @ [AddTimeout 12, TcpConnect ''example.org'' 443 (parse_ssl_opts 443)]"
  by (simp add: connect_def connected0_eq emit_def)

text \<open>
  C4, amended.  While a connect is pending (the timeout handle is set), \<^verbatim>\<open>connect\<close> is rejected:
  it logs a warning and changes nothing else, neither an attribute of the connection nor the
  trace of its calls, so no timer is armed and no TCP connect is started.
\<close>

theorem connect_rejected_while_connecting:
  assumes "timeout_truthy (connect_timeout_t s)"
  shows "connect t s = s\<lparr>logged := logged s @ [WarnConnectWhileWaiting]\<rparr>"
  using assms by (simp add: connect_def logmsg_def)

text \<open>
  C4, amended, on a new connection: the second of two \<^verbatim>\<open>connect\<close> calls only logs.
\<close>

theorem connect_rejected_while_connecting_witness:
  "timeout_truthy (connect_timeout_t (connect 0 fresh_connection)) \<and>
   connect 3 (connect 0 fresh_connection) =
     (connect 0 fresh_connection)\<lparr>logged := logged (connect 0 fresh_connection) @ [WarnConnectWhileWaiting]\<rparr>"
proof -
  have h: "timeout_truthy (connect_timeout_t (connect 0 fresh_connection))"
    by (simp add: connect_def fresh_connection_def init_def emit_def)
  show ?thesis using h connect_rejected_while_connecting [OF h, of 3] by simp
qed

subsection \<open>C5: returning flow-control credit\<close>

text \<open>
  C5, as stated, fails.  A batch of one empty data frame for the registered stream 1 counts
  zero bytes: \<^verbatim>\<open>process_events\<close> hands the event to the handler and returns, with no
  connection-scope increment and no flush.
\<close>

theorem empty_data_batch_counterexample:
  "process_events engine0 quiet_handlers [data_event 1 0] connected0 =
     Returned (connected0\<lparr>effects := effects connected0 @ [HandleEvent 11 (data_event 1 0)],
                          logged := logged connected0 @ [InfoProcessingEvent (data_event 1 0)]\<rparr>)"
  by (simp add: process_events_def connected0_eq data_event_def classify_def route_def observe_def
          quiet_handlers_def recv_get_def emit_def logmsg_def credit_connection_def flush_def
          engine0_def scripted_engine_def Let_def)

text \<open>
  C5, amended.  The conditions: the connection has its engine and its IOStream; the engine
  accepts every increment by an amount that is not zero (a per-stream one may raise
  \<^verbatim>\<open>StreamClosedError\<close>, which is swallowed); no exception leaves a stream handler (the handler
  returns, or its \<^verbatim>\<open>handle_exception\<close> ends the exception) and no observer raises.  Then
  \<^verbatim>\<open>process_events\<close> returns, and the flow-control and flush calls it adds to the trace are, in
  this order: one per-stream increment for each stream id whose bytes in the batch are not
  zero, by that amount, and none for a stream whose bytes are zero (\<open>per\<close> has each stream at
  most once); one connection-scope increment by the bytes of the whole batch when they are
  not zero, and none when they are zero; and one flush when the bytes of the batch are not
  zero or the batch holds a settings update, and none otherwise.  The flush is
  \<^verbatim>\<open>data_to_send()\<close> on the engine as the increments left it, and a write of exactly the bytes it
  returned when there are any.
\<close>

theorem process_events_returns_credit:
  assumes eng: "h2conn s \<noteq> None" and tr: "stream s = Some io"
    and acc: "\<And>e n k. n \<noteq> 0 \<Longrightarrow>
                fst (increment_flow_control_window ops e n k) = None \<or>
                k \<noteq> None \<and> fst (increment_flow_control_window ops e n k) = Some StreamClosedError"
    and h: "\<And>tr h ev x. handle_event env tr h ev \<noteq> Escaped x"
    and ob: "\<And>tr h ev. observer_call env tr h ev = None"
  shows "\<exists>s' per fl.
           process_events ops env evs s = Returned s' \<and>
           engine_commands (effects s') =
             engine_commands (effects s) @ map stream_credit per @
             (if batch_bytes evs = 0 then [] else [IncrementConnection (batch_bytes evs)]) @ fl \<and>
           distinct (map fst per) \<and>
           set per = {(k, n). n \<noteq> 0 \<and> n = stream_bytes k evs} \<and>
           (if batch_bytes evs = 0 \<and> (\<forall>ev \<in> set evs. kind ev \<noteq> RemoteSettingsChanged) then fl = []
            else \<exists>e. fl = flush_calls ops io e \<and> h2conn s' = Some (snd (data_to_send ops e)))"
proof -
  from dispatch_returns [OF h ob] obtain l s1 where
    d: "dispatch env evs fresh_locals s = Returned (l, s1)" by blast
  have l: "l = foldl (\<lambda>l ev. classify ev l) fresh_locals evs"
    using dispatch_locals [OF d] .
  have u1: "undisturbed s s1" using undisturbed_dispatch [of s env evs fresh_locals] d by simp
  have g1: "engine_commands (effects s1) = engine_commands (effects s)"
    using engine_commands_dispatch [of env evs fresh_locals s] d by simp
  let ?rs = "recv_streams l"
  let ?per = "filter nonzero ?rs"
  let ?B = "batch_bytes evs"
  let ?C = "if ?B = 0 then [] else [IncrementConnection ?B]"
  have rs: "?rs = recv_streams (foldl (\<lambda>l ev. classify ev l) fresh_locals evs)" using l by simp
  note T = tally_entries [OF rs]
  have su: "settings_updated l = (\<exists>ev \<in> set evs. kind ev = RemoteSettingsChanged)"
    unfolding l by (simp add: foldl_classify_settings fresh_locals_def)
  have h1: "h2conn s1 \<noteq> None" using u1 eng by (simp add: undisturbed_def)
  have acc': "n \<noteq> 0 \<Longrightarrow> fst (increment_flow_control_window ops e n k) = None \<or>
              fst (increment_flow_control_window ops e n k) = Some StreamClosedError" for e n k
    using acc [of n e k] by blast
  from credit_streams_accepted [of ops s1 ?rs 0, OF acc' h1]
  obtain s2 where c2: "credit_streams ops ?rs 0 s1 = Returned (?B, s2)"
    and e2: "effects s2 = effects s1 @ map stream_credit ?per"
    using T(3) by auto
  have u2: "undisturbed s s2"
    using undisturbed_credit_streams [of s1 ops ?rs 0] c2 u1 by (auto intro: undisturbed_trans)
  have g2: "engine_commands (effects s2) = engine_commands (effects s) @ map stream_credit ?per"
    by (simp add: e2 g1)
  have pe: "process_events ops env evs s =
              (case (if ?B \<noteq> 0 then credit_connection ops ?B s2 else Returned s2) of
                 Raised x s3 \<Rightarrow> Raised x s3
               | Returned s3 \<Rightarrow> if ?B \<noteq> 0 \<or> settings_updated l then flush ops s3 else Returned s3)"
    using d c2 by (simp add: process_events_def fresh_locals_def)
  show ?thesis
  proof (cases "?B = 0")
    case True
    show ?thesis
    proof (cases "settings_updated l")
      case False
      have "process_events ops env evs s = Returned s2" using pe True False by simp
      moreover have "engine_commands (effects s2) =
                       engine_commands (effects s) @ map stream_credit ?per @ ?C @ []"
        using g2 True by simp
      ultimately show ?thesis using T(1,2) True False su
        by (intro exI [of _ s2] exI [of _ ?per] exI [of _ "[]"]) auto
    next
      case su': True
      from h1 u2 eng obtain e where e: "h2conn s2 = Some e" by (auto simp: undisturbed_def)
      have t2: "stream s2 = Some io" using u2 tr by (simp add: undisturbed_def)
      from flush_connected [OF e t2, of ops] obtain s3 where
        f: "flush ops s2 = Returned s3" and
        e3: "effects s3 = effects s2 @ flush_calls ops io e" and
        h3: "h2conn s3 = Some (snd (data_to_send ops e))" by blast
      have r: "process_events ops env evs s = Returned s3" using pe True su' f by simp
      have "engine_commands (effects s3) =
              engine_commands (effects s) @ map stream_credit ?per @ ?C @ flush_calls ops io e"
        using e3 g2 True by simp
      with r h3 T(1,2) su su' show ?thesis
        by (intro exI [of _ s3] exI [of _ ?per] exI [of _ "flush_calls ops io e"]) auto
    qed
  next
    case False
    from h1 u2 eng obtain e where e: "h2conn s2 = Some e" by (auto simp: undisturbed_def)
    have "fst (increment_flow_control_window ops e ?B None) = None"
      using acc [of ?B e None] False by simp
    from credit_connection_accepted [OF this e] obtain s3 where
      c3: "credit_connection ops ?B s2 = Returned s3" and
      e3: "effects s3 = effects s2 @ [IncrementConnection ?B]" by blast
    have u3: "undisturbed s s3"
      using undisturbed_credit_connection [of s2 ops ?B] c3 u2 by (auto intro: undisturbed_trans)
    from u3 eng obtain e4 where e4: "h2conn s3 = Some e4" by (auto simp: undisturbed_def)
    have t3: "stream s3 = Some io" using u3 tr by (simp add: undisturbed_def)
    from flush_connected [OF e4 t3, of ops] obtain s4 where
      f: "flush ops s3 = Returned s4" and
      e5: "effects s4 = effects s3 @ flush_calls ops io e4" and
      h4: "h2conn s4 = Some (snd (data_to_send ops e4))" by blast
    have r: "process_events ops env evs s = Returned s4" using pe False c3 f by simp
    have "engine_commands (effects s4) =
            engine_commands (effects s) @ map stream_credit ?per @ ?C @ flush_calls ops io e4"
      using e5 e3 g2 False by (simp add: engine_commands_connection)
    with r h4 T(1,2) False show ?thesis
      by (intro exI [of _ s4] exI [of _ ?per] exI [of _ "flush_calls ops io e4"]) auto
  qed
qed

text \<open>
  C5, amended, on the batch of the claim: data events of 10, 0 and 25 bytes for the registered
  streams 1, 3 and 5, with an engine that rejects an increment of zero.  The three events
  reach their handlers; then come two per-stream increments (10 and 25), one
  connection-scope increment of 35, and the flush.
\<close>

theorem process_events_returns_credit_witness:
  "h2conn connected0 \<noteq> None \<and>
   stream connected0 =
     Some \<lparr>ios_id = 1, ios_error = None, ios_close_raises = False, ios_nodelay = True,
            ios_close_callback = Some None\<rparr> \<and>
   batch_bytes [data_event 1 10, data_event 3 0, data_event 5 25] = 35 \<and>
   process_events engine0 quiet_handlers [data_event 1 10, data_event 3 0, data_event 5 25] connected0 =
     Returned (connected0\<lparr>
       h2conn := Some [],
       effects := effects connected0 @
         [HandleEvent 11 (data_event 1 10), HandleEvent 13 (data_event 3 0),
          HandleEvent 15 (data_event 5 25),
          IncrementStream 10 (Some 1), IncrementStream 25 (Some 5), IncrementConnection 35,
          DataToSend, StreamWrite 1 [8, 8, 8]],
       logged := logged connected0 @
         [InfoProcessingEvent (data_event 1 10), InfoProcessingEvent (data_event 3 0),
          InfoProcessingEvent (data_event 5 25),
          InfoTryingIncrement (Some 1) 10, InfoTryingIncrement (Some 5) 25,
          InfoIncrementingWindow, InfoFlushing 3]\<rparr>)"
proof -
  have h: "h2conn connected0 \<noteq> None" by (simp add: connected0_eq)
  have t: "stream connected0 =
     Some \<lparr>ios_id = 1, ios_error = None, ios_close_raises = False, ios_nodelay = True,
            ios_close_callback = Some None\<rparr>" by (simp add: connected0_eq)
  have a: "n \<noteq> 0 \<Longrightarrow>
           fst (increment_flow_control_window engine0 e n k) = None \<or>
           k \<noteq> None \<and> fst (increment_flow_control_window engine0 e n k) = Some StreamClosedError" for e n k
    by (simp add: engine0_def scripted_engine_def)
  have q: "handle_event quiet_handlers tr hd ev \<noteq> Escaped x" for tr hd ev x
    by (simp add: quiet_handlers_def)
  have o: "observer_call quiet_handlers tr hd ev = None" for tr hd ev
    by (simp add: quiet_handlers_def)
  have b: "batch_bytes [data_event 1 10, data_event 3 0, data_event 5 25] = 35"
    by (simp add: batch_bytes_def data_event_def)
  have r: "process_events engine0 quiet_handlers [data_event 1 10, data_event 3 0, data_event 5 25] connected0 =
     Returned (connected0\<lparr>
       h2conn := Some [],
       effects := effects connected0 @
         [HandleEvent 11 (data_event 1 10), HandleEvent 13 (data_event 3 0),
          HandleEvent 15 (data_event 5 25),
          IncrementStream 10 (Some 1), IncrementStream 25 (Some 5), IncrementConnection 35,
          DataToSend, StreamWrite 1 [8, 8, 8]],
       logged := logged connected0 @
         [InfoProcessingEvent (data_event 1 10), InfoProcessingEvent (data_event 3 0),
          InfoProcessingEvent (data_event 5 25),
          InfoTryingIncrement (Some 1) 10, InfoTryingIncrement (Some 5) 25,
          InfoIncrementingWindow, InfoFlushing 3]\<rparr>)"
    by (simp add: process_events_def connected0_eq data_event_def classify_def route_def observe_def
          quiet_handlers_def recv_get_def emit_def logmsg_def credit_connection_def flush_def
          engine0_def scripted_engine_def Let_def)
  show ?thesis
    using h t b r
      process_events_returns_credit [OF h t a q o, of "[data_event 1 10, data_event 3 0, data_event 5 25]"]
    by simp
qed

subsection \<open>C6: events and the registry\<close>

text \<open>
  C6, as stated, fails.  The ledger is filled by the event's class alone.  A data event of 10
  bytes for stream 7, which is not registered, is handed to no handler, and its 10 bytes are
  in the ledger all the same: here they come back as a per-stream increment for stream 7
  and in the connection-scope increment.
\<close>

theorem unregistered_data_counterexample:
  "ongoing_streams connected0 7 = None \<and>
   process_events engine0 quiet_handlers [data_event 7 10] connected0 =
     Returned (connected0\<lparr>
       h2conn := Some [],
       effects := effects connected0 @
         [IncrementStream 10 (Some 7), IncrementConnection 10, DataToSend, StreamWrite 1 [8, 8]],
       logged := logged connected0 @
         [InfoProcessingEvent (data_event 7 10), WarnEventForUnregisteredStream (data_event 7 10),
          InfoTryingIncrement (Some 7) 10, InfoIncrementingWindow, InfoFlushing 2]\<rparr>)"
  by (simp add: process_events_def connected0_eq data_event_def classify_def route_def observe_def
          quiet_handlers_def recv_get_def emit_def logmsg_def credit_connection_def flush_def
          engine0_def scripted_engine_def Let_def)

text \<open>
  C6, amended.  The bytes of an event go into the ledger exactly when it is a data event,
  whether its stream id is registered or not: when the first loop of \<^verbatim>\<open>process_events\<close> has run
  through a batch, the ledger holds, for every stream id \<open>k\<close>, the bytes of the batch's data
  events with that id, and one event adds \<open>data_bytes k ev\<close> under \<open>k\<close>.  An event whose stream
  id is set and not registered is handed to no stream handler; when no observer is stored
  for it, all it does besides is to log a warning.  An event whose stream id is registered
  is handed to the handler registered under that id, and to no other.
\<close>

theorem dispatch_ledger_ignores_registry:
  "(dispatch env evs fresh_locals s = Returned (l', s') \<longrightarrow>
      recv_get (recv_streams l') k = stream_bytes k evs) \<and>
   (dispatch env [ev] l s = Returned (l1, s1) \<longrightarrow>
      recv_get (recv_streams l1) k = recv_get (recv_streams l) k + data_bytes k ev) \<and>
   (id_truthy (stream_id ev) \<and> the (stream_id ev) \<notin> dom (ongoing_streams s) \<longrightarrow>
      deliveries (effects (final_snd (dispatch env [ev] l s))) = deliveries (effects s) \<and>
      (event_handlers s (ev_id ev) = None \<longrightarrow>
         dispatch env [ev] l s =
           Returned (classify ev l,
                     s\<lparr>logged := logged s @ [InfoProcessingEvent ev,
                                               WarnEventForUnregisteredStream ev]\<rparr>))) \<and>
   (id_truthy (stream_id ev) \<and> ongoing_streams s (the (stream_id ev)) = Some h \<longrightarrow>
      deliveries (effects (final_snd (dispatch env [ev] l s))) = deliveries (effects s) @ [(h, ev)])"
proof (intro conjI impI)
  assume "dispatch env evs fresh_locals s = Returned (l', s')"
  then show "recv_get (recv_streams l') k = stream_bytes k evs" by (rule dispatch_ledger)
next
  assume "dispatch env [ev] l s = Returned (l1, s1)"
  from dispatch_locals [OF this]
  show "recv_get (recv_streams l1) k = recv_get (recv_streams l) k + data_bytes k ev"
    by (simp add: classify_get)
next
  assume a: "id_truthy (stream_id ev) \<and> the (stream_id ev) \<notin> dom (ongoing_streams s)"
  let ?s0 = "logmsg (InfoProcessingEvent ev) s"
  have r: "route env ev ?s0 = Returned (logmsg (WarnEventForUnregisteredStream ev) ?s0)"
    using a by (intro route_unregistered) (simp_all add: logmsg_def)
  show "deliveries (effects (final_snd (dispatch env [ev] l s))) = deliveries (effects s)"
    by (simp only: final_snd_dispatch_one r outcome.case deliveries_observe)
       (simp add: logmsg_def)
  {
    assume "event_handlers s (ev_id ev) = None"
    then have "observe env ev (logmsg (WarnEventForUnregisteredStream ev) ?s0) =
                 Returned (logmsg (WarnEventForUnregisteredStream ev) ?s0)"
      by (simp add: observe_def logmsg_def)
    then show "dispatch env [ev] l s =
                 Returned (classify ev l,
                           s\<lparr>logged := logged s @ [InfoProcessingEvent ev,
                                                     WarnEventForUnregisteredStream ev]\<rparr>)"
      by (simp only: dispatch_one r outcome.case) (simp add: logmsg_def)
  }
next
  assume a: "id_truthy (stream_id ev) \<and> ongoing_streams s (the (stream_id ev)) = Some h"
  let ?s0 = "logmsg (InfoProcessingEvent ev) s"
  have d: "deliveries (effects (final (route env ev ?s0))) = deliveries (effects ?s0) @ [(h, ev)]"
    using a by (intro route_registered) (simp_all add: logmsg_def)
  have e0: "deliveries (effects ?s0) = deliveries (effects s)" by (simp add: logmsg_def)
  show "deliveries (effects (final_snd (dispatch env [ev] l s))) = deliveries (effects s) @ [(h, ev)]"
  proof (cases "route env ev ?s0")
    case (Raised x s1)
    with d e0 show ?thesis by (simp add: final_snd_dispatch_one)
  next
    case (Returned s1)
    then have "final_snd (dispatch env [ev] l s) = final (observe env ev s1)"
      by (simp only: final_snd_dispatch_one outcome.case)
    with d e0 Returned show ?thesis by (simp add: deliveries_observe)
  qed
qed

text \<open>
  C6, amended, on the data event of 10 bytes for the unregistered stream 7: no handler call,
  one warning, and 10 bytes in the ledger under stream 7.
\<close>

theorem dispatch_ledger_ignores_registry_witness:
  "id_truthy (stream_id (data_event 7 10)) \<and>
   the (stream_id (data_event 7 10)) \<notin> dom (ongoing_streams connected0) \<and>
   event_handlers connected0 (ev_id (data_event 7 10)) = None \<and>
   stream_bytes (Some 7) [data_event 7 10] = 10 \<and>
   dispatch quiet_handlers [data_event 7 10] fresh_locals connected0 =
     Returned (classify (data_event 7 10) fresh_locals,
               connected0\<lparr>logged := logged connected0 @
                            [InfoProcessingEvent (data_event 7 10),
                             WarnEventForUnregisteredStream (data_event 7 10)]\<rparr>) \<and>
   recv_get (recv_streams (classify (data_event 7 10) fresh_locals)) (Some 7) = 10 \<and>
   deliveries (effects (final_snd (dispatch quiet_handlers [data_event 7 10] fresh_locals connected0))) = []"
proof -
  have a: "id_truthy (stream_id (data_event 7 10))" by (simp add: data_event_def)
  have b: "the (stream_id (data_event 7 10)) \<notin> dom (ongoing_streams connected0)"
    by (simp add: data_event_def connected0_eq)
  have c: "stream_bytes (Some 7) [data_event 7 10] = 10"
    by (simp add: stream_bytes_def data_bytes_def data_event_def)
  have d: "deliveries (effects connected0) = []" by (simp add: connected0_eq deliveries_def)
  have e: "event_handlers connected0 (ev_id (data_event 7 10)) = None" by (simp add: connected0_eq)
  note T = dispatch_ledger_ignores_registry
             [of quiet_handlers "[data_event 7 10]" connected0
                 "classify (data_event 7 10) fresh_locals"
                 "connected0\<lparr>logged := logged connected0 @
                            [InfoProcessingEvent (data_event 7 10),
                             WarnEventForUnregisteredStream (data_event 7 10)]\<rparr>"
                 "Some 7" "data_event 7 10" fresh_locals
                 "classify (data_event 7 10) fresh_locals"
                 "connected0\<lparr>logged := logged connected0 @
                            [InfoProcessingEvent (data_event 7 10),
                             WarnEventForUnregisteredStream (data_event 7 10)]\<rparr>" 0]
  show ?thesis using a b c d e T by simp
qed

subsection \<open>C7: the transport arrives after the timeout\<close>




subsection \<open>C8: the reason of a transport close\<close>

text \<open>
  C8: what the code does.  \<^verbatim>\<open>on_connect\<close> registers \<^verbatim>\<open>functools.partial(self.on_close, io_stream.error)\<close>,
  which reads the IOStream's \<^verbatim>\<open>error\<close> attribute at that moment.  When the IOStream closes
  later with the error \<open>err\<close>, \<^verbatim>\<open>on_connection_closed\<close> receives the value read at connect time,
  whatever \<open>err\<close> is.
\<close>

theorem close_callback_reason_fixed_at_connect:
  assumes "\<not> timed_out s"
  shows "\<exists>s1. on_connect ops io s = Returned s1 \<and>
              closed_callbacks (effects (iostream_closed err s1)) =
                closed_callbacks (effects s1) @ [ios_error io]"
proof -
  from on_connect_in_time [OF assms, of ops io] obtain s1 where
    r: "on_connect ops io s = Returned s1" and
    st: "stream s1 = Some (io\<lparr>ios_nodelay := True, ios_close_callback := Some (ios_error io)\<rparr>)"
    by blast
  have "closed_callbacks (effects (iostream_closed err s1)) = closed_callbacks (effects s1) @ [ios_error io]"
    using st by (simp add: iostream_closed_def on_close_callbacks)
  with r show ?thesis by blast
qed

text \<open>
  C8 on an IOStream without error at connect time that fails later with an exception:
  \<^verbatim>\<open>on_connection_closed\<close> is called with \<^verbatim>\<open>None\<close>.
\<close>

theorem close_callback_reason_fixed_at_connect_witness:
  "\<not> timed_out (connect 0 fresh_connection) \<and> ios_error io0 = None \<and>
   on_connect engine0 io0 (connect 0 fresh_connection) = Returned (connected0\<lparr>ongoing_streams := Map.empty\<rparr>) \<and>
   closed_callbacks (effects (iostream_closed (Some (OtherException 104))
                               (connected0\<lparr>ongoing_streams := Map.empty\<rparr>))) = [None]"
proof -
  have h: "\<not> timed_out (connect 0 fresh_connection)"
    by (simp add: connect_def fresh_connection_def init_def emit_def)
  have r: "on_connect engine0 io0 (connect 0 fresh_connection) = Returned (connected0\<lparr>ongoing_streams := Map.empty\<rparr>)"
    by (simp add: connected0_eq)
       (simp add: fresh_connection_def init_def connect_def on_connect_def flush_def
          engine0_def scripted_engine_def io0_def emit_def logmsg_def Let_def)
  have q: "closed_callbacks (effects (connected0\<lparr>ongoing_streams := Map.empty\<rparr>)) = []"
    by (simp add: connected0_quiet)
  show ?thesis
    using h r q close_callback_reason_fixed_at_connect
                  [OF h, of engine0 io0 "Some (OtherException 104)"]
    by (simp add: io0_def)
qed

subsection \<open>C9: the observers\<close>

text \<open>
  C9: what the code does.  \<^verbatim>\<open>add_event_handler\<close> adds the handler to
  \<^verbatim>\<open>self.event_handlers.get(event, set())\<close>, which is a new set when the event has no entry, and
  stores that set nowhere.  While the dictionary is empty, as it is after construction,
  adding a handler changes nothing (the dictionary stays empty), removing the handler just
  added raises \<^verbatim>\<open>KeyError\<close>, and a dispatched event reaches no observer.
\<close>

theorem add_event_handler_registers_nothing:
  assumes "event_handlers s = Map.empty"
  shows "add_event_handler ev h s = s \<and>
         remove_event_handler ev h (add_event_handler ev h s) = Raised KeyError s \<and>
         observe env ev (add_event_handler ev h s) = Returned s"
  using assms by (simp add: add_event_handler_def remove_event_handler_def observe_def)

text \<open>
  C9 on a new connection: add a handler, then remove it.
\<close>

theorem add_event_handler_registers_nothing_witness:
  "event_handlers fresh_connection = Map.empty \<and>
   add_event_handler terminated_event 21 fresh_connection = fresh_connection \<and>
   remove_event_handler terminated_event 21 (add_event_handler terminated_event 21 fresh_connection) =
     Raised KeyError fresh_connection"
proof -
  have h: "event_handlers fresh_connection = Map.empty"
    by (simp add: fresh_connection_def init_def)
  show ?thesis
    using h add_event_handler_registers_nothing [OF h, of terminated_event 21] by blast
qed

subsection \<open>C10: ending a stream that is not registered\<close>

text \<open>
  C10, as stated, fails.  On a new connection, whose registry is empty, \<^verbatim>\<open>end_stream\<close> for a
  stream with id 3 raises \<^verbatim>\<open>KeyError\<close>.
\<close>

theorem end_stream_missing_counterexample:
  "end_stream \<lparr>hs_obj = 13, hs_stream_id = 3\<rparr> fresh_connection = Raised KeyError fresh_connection"
  by (simp add: end_stream_def fresh_connection_def init_def)

text \<open>
  C10, amended.  For a stream id that is not in the registry, \<^verbatim>\<open>end_stream\<close> raises \<^verbatim>\<open>KeyError\<close>;
  the registry, like the rest of the connection, is as it was.
\<close>

theorem end_stream_missing_raises:
  assumes "hs_stream_id st \<notin> dom (ongoing_streams s)"
  shows "end_stream st s = Raised KeyError s"
  using assms by (simp add: end_stream_def)

text \<open>
  C10, amended, on the connection with the streams 1, 3 and 5 and a stream with id 7.
\<close>

theorem end_stream_missing_raises_witness:
  "hs_stream_id \<lparr>hs_obj = 17, hs_stream_id = 7\<rparr> \<notin> dom (ongoing_streams connected0) \<and>
   end_stream \<lparr>hs_obj = 17, hs_stream_id = 7\<rparr> connected0 = Raised KeyError connected0"
proof -
  have h: "hs_stream_id \<lparr>hs_obj = 17, hs_stream_id = 7\<rparr> \<notin> dom (ongoing_streams connected0)"
    by (simp add: connected0_eq)
  show ?thesis using h end_stream_missing_raises [OF h] by simp
qed

end
